theory Spec2Isabelle
  imports Main "HOL-Library.AList"
begin

section \<open>Lead capture of the voice agent (backend/src/agent.py)\<close>

text \<open>
  The module keeps the lead of a call in a \<open>LeadManager\<close> object, whose \<open>profile\<close> is a
  Python dict, and exposes two tools to the language model: \<open>update_lead_profile\<close> and
  \<open>submit_lead\<close>. This theory embeds that part of the module: the dict objects live in a
  store of references (so that \<open>copy()\<close> and in-place assignment can be told apart), the
  leads file is a value of its own, and every exception the code lets escape is a result.
  Calls to \<open>logger.info\<close> are not modelled.
\<close>

subsection \<open>Python values\<close>

text \<open>A profile value is \<open>Optional[str]\<close>: \<open>None\<close> or a string.\<close>

type_synonym pyval = "string option"

text \<open>A dict keeps its keys in insertion order: an association list with distinct keys.\<close>

type_synonym pydict = "(string \<times> pyval) list"

text \<open>Keyword arguments, in the order in which the call site writes them.\<close>

type_synonym kwargs = "(string \<times> pyval) list"

datatype py_error =
    KeyError string
  | AttributeError
  | OSError
  | UnicodeDecodeError

text \<open>Truth value of an \<open>Optional[str]\<close>: \<open>None\<close> and the empty string are false.\<close>

fun truthy :: "pyval \<Rightarrow> bool" where
  "truthy None = False"
| "truthy (Some s) = (s \<noteq> [])"

subsection \<open>JSON documents and the leads file\<close>

datatype json =
    JNull
  | JBool bool
  | JNum int
  | JStr string
  | JArr "json list"
  | JObj "(string \<times> json) list"

text \<open>
  What \<open>LEADS_FILE\<close> is on disk, by what the read path of \<open>save_to_disk\<close> meets:
  no file; a path that \<open>open\<close> refuses (permissions, a directory); bytes that do not
  decode as text; text that is not JSON; text that \<open>json.load\<close> parses to a value.
  A file written by \<open>json.dump\<close> is represented by the value it was written from.
\<close>

datatype leads_file =
    Absent
  | Unopenable
  | Undecodable
  | Malformed
  | Stored json

subsection \<open>Time stamps\<close>

record datetime =
  year :: nat
  month :: nat
  day :: nat
  hour :: nat
  minute :: nat
  second :: nat
  microsecond :: nat

text \<open>The character of a decimal digit \<open>d < 10\<close>.\<close>

definition digit_char :: "nat \<Rightarrow> char" where
  "digit_char d = ''0123456789'' ! d"

fun decimal :: "nat \<Rightarrow> string" where
  "decimal n = (if n < 10 then [digit_char n] else decimal (n div 10) @ [digit_char (n mod 10)])"

declare decimal.simps [simp del]

text \<open>The format \<open>%0wd\<close>: decimal digits, padded with zeros on the left up to width \<open>w\<close>.\<close>

definition zero_pad :: "nat \<Rightarrow> nat \<Rightarrow> string" where
  "zero_pad w n = replicate (w - length (decimal n)) (CHR ''0'') @ decimal n"

text \<open>
  \<open>datetime.isoformat()\<close> of a naive datetime: \<open>YYYY-MM-DDTHH:MM:SS\<close>, followed by
  \<open>.ffffff\<close> when the microsecond is not zero.
\<close>

definition isoformat :: "datetime \<Rightarrow> string" where
  "isoformat d =
     zero_pad 4 (year d) @ ''-'' @ zero_pad 2 (month d) @ ''-'' @ zero_pad 2 (day d) @ ''T'' @
     zero_pad 2 (hour d) @ '':'' @ zero_pad 2 (minute d) @ '':'' @ zero_pad 2 (second d) @
     (if microsecond d \<noteq> 0 then ''.'' @ zero_pad 6 (microsecond d) else [])"

text \<open>The values a \<open>datetime\<close> object can hold (days of the month not refined by month).\<close>

definition valid_datetime :: "datetime \<Rightarrow> bool" where
  "valid_datetime d =
     (1 \<le> year d \<and> year d \<le> 9999 \<and> 1 \<le> month d \<and> month d \<le> 12 \<and>
      1 \<le> day d \<and> day d \<le> 31 \<and> hour d < 24 \<and> minute d < 60 \<and> second d < 60 \<and>
      microsecond d < 1000000)"

text \<open>A pattern for the shape of a time stamp: a decimal digit or a given character.\<close>

datatype shape = Digit | Lit char

fun is_digit :: "char \<Rightarrow> bool" where
  "is_digit c = (c \<in> set ''0123456789'')"

fun matches :: "shape list \<Rightarrow> string \<Rightarrow> bool" where
  "matches [] [] = True"
| "matches (Digit # ps) (c # cs) = (is_digit c \<and> matches ps cs)"
| "matches (Lit x # ps) (c # cs) = (c = x \<and> matches ps cs)"
| "matches _ _ = False"

definition seconds_shape :: "shape list" where
  "seconds_shape =
     [Digit, Digit, Digit, Digit, Lit (CHR ''-''), Digit, Digit, Lit (CHR ''-''), Digit, Digit,
      Lit (CHR ''T''), Digit, Digit, Lit (CHR '':''), Digit, Digit, Lit (CHR '':''), Digit, Digit]"

definition fraction_shape :: "shape list" where
  "fraction_shape = [Lit (CHR ''.''), Digit, Digit, Digit, Digit, Digit, Digit]"

text \<open>ISO-8601 extended format of a local date and time, with or without the fraction.\<close>

definition iso8601 :: "string \<Rightarrow> bool" where
  "iso8601 s = (matches seconds_shape s \<or> matches (seconds_shape @ fraction_shape) s)"

subsection \<open>The state of the module\<close>

text \<open>A \<open>LeadManager\<close> object has one attribute, a reference to its profile dict.\<close>

record LeadManager =
  profile :: nat

text \<open>
  The state of the running module: the dict objects by reference, the number of
  references handed out, the module-level variable \<open>lead_state\<close>, the file \<open>LEADS_FILE\<close>,
  and whether \<open>open(LEADS_FILE, "w")\<close> is permitted.
\<close>

record module_state =
  heap :: "nat \<Rightarrow> pydict"
  used :: nat
  lead_state :: LeadManager
  leads_file :: leads_file
  writable :: bool

definition new_dict :: "pydict \<Rightarrow> module_state \<Rightarrow> nat \<times> module_state" where
  "new_dict d s = (used s, s\<lparr>heap := (heap s)(used s := d), used := Suc (used s)\<rparr>)"

text \<open>\<open>d.copy()\<close>: a new dict object with the same items.\<close>

definition dict_copy :: "nat \<Rightarrow> module_state \<Rightarrow> nat \<times> module_state" where
  "dict_copy r s = new_dict (heap s r) s"

text \<open>\<open>d[k] = v\<close>: replaces the value of a key in place, or adds the key at the end.\<close>

definition setitem :: "nat \<Rightarrow> string \<Rightarrow> pyval \<Rightarrow> module_state \<Rightarrow> module_state" where
  "setitem r k v s = s\<lparr>heap := (heap s)(r := AList.update k v (heap s r))\<rparr>"

text \<open>\<open>d[k]\<close>: raises \<open>KeyError\<close> on a key the dict does not have.\<close>

definition getitem :: "nat \<Rightarrow> string \<Rightarrow> module_state \<Rightarrow> py_error + pyval" where
  "getitem r k s = (case map_of (heap s r) k of None \<Rightarrow> Inl (KeyError k) | Some v \<Rightarrow> Inr v)"

subsection \<open>LeadManager\<close>

definition empty_profile :: pydict where
  "empty_profile =
     [(''name'', None), (''company'', None), (''email'', None),
      (''use_case'', None), (''budget'', None), (''timeline'', None)]"

text \<open>\<open>LeadManager.__init__\<close>\<close>

definition LeadManager_init :: "module_state \<Rightarrow> LeadManager \<times> module_state" where
  "LeadManager_init s = (case new_dict empty_profile s of (r, s') \<Rightarrow> (\<lparr>profile = r\<rparr>, s'))"

text \<open>\<open>LeadManager.update\<close>: the loop over \<open>kwargs.items()\<close>.\<close>

fun update :: "LeadManager \<Rightarrow> kwargs \<Rightarrow> module_state \<Rightarrow> module_state" where
  "update self [] s = s"
| "update self ((k, v) # rest) s =
     update self rest (if v \<noteq> None then setitem (profile self) k v s else s)"

text \<open>\<open>LeadManager.is_complete\<close>: \<open>all([self.profile['name'], self.profile['use_case']])\<close>\<close>

definition is_complete :: "LeadManager \<Rightarrow> module_state \<Rightarrow> (py_error + bool) \<times> module_state" where
  "is_complete self s =
     (case getitem (profile self) ''name'' s of
        Inl e \<Rightarrow> (Inl e, s)
      | Inr a \<Rightarrow>
         (case getitem (profile self) ''use_case'' s of
            Inl e \<Rightarrow> (Inl e, s)
          | Inr b \<Rightarrow> (Inr (list_all truthy [a, b]), s)))"

subsection \<open>Persistence: \<open>LeadManager.save_to_disk\<close>\<close>

text \<open>How \<open>json.dump\<close> writes a dict of optional strings: \<open>None\<close> becomes \<open>null\<close>.\<close>

fun json_of_value :: "pyval \<Rightarrow> json" where
  "json_of_value None = JNull"
| "json_of_value (Some x) = JStr x"

definition json_of_dict :: "pydict \<Rightarrow> json" where
  "json_of_dict d = JObj (map (\<lambda>(k, v). (k, json_of_value v)) d)"

text \<open>
  The read of the existing leads: \<open>existing_leads\<close> stays \<open>[]\<close> when the file does not
  exist, and when \<open>json.load\<close> raises \<open>JSONDecodeError\<close>, the only exception caught.
  An error of \<open>open\<close> or of the text decoding escapes.
\<close>

fun load_existing :: "leads_file \<Rightarrow> py_error + json" where
  "load_existing Absent = Inr (JArr [])"
| "load_existing Unopenable = Inl OSError"
| "load_existing Undecodable = Inl UnicodeDecodeError"
| "load_existing Malformed = Inr (JArr [])"
| "load_existing (Stored j) = Inr j"

text \<open>\<open>existing_leads.append(entry)\<close>: only a list has \<open>append\<close>.\<close>

fun list_append :: "json \<Rightarrow> json \<Rightarrow> py_error + json" where
  "list_append (JArr xs) e = Inr (JArr (xs @ [e]))"
| "list_append _ e = Inl AttributeError"

text \<open>The write: \<open>open(LEADS_FILE, "w")\<close> and \<open>json.dump\<close> of the whole list.\<close>

definition dump_leads :: "json \<Rightarrow> module_state \<Rightarrow> (py_error + unit) \<times> module_state" where
  "dump_leads leads s =
     (if writable s then (Inr (), s\<lparr>leads_file := Stored leads\<rparr>) else (Inl OSError, s))"

definition save_to_disk ::
  "LeadManager \<Rightarrow> datetime \<Rightarrow> module_state \<Rightarrow> (py_error + unit) \<times> module_state" where
  "save_to_disk self now s =
     (case dict_copy (profile self) s of
        (entry, s1) \<Rightarrow>
          (let s2 = setitem entry ''timestamp'' (Some (isoformat now)) s1 in
           case load_existing (leads_file s2) of
             Inl e \<Rightarrow> (Inl e, s2)
           | Inr existing_leads \<Rightarrow>
               (case list_append existing_leads (json_of_dict (heap s2 entry)) of
                  Inl e \<Rightarrow> (Inl e, s2)
                | Inr leads \<Rightarrow> dump_leads leads s2)))"

subsection \<open>The tools: \<open>SDRTools\<close>\<close>

text \<open>
  An \<open>SDRTools\<close> object has no attribute of its own; the number is its identity. Both
  tools work on the module-level \<open>lead_state\<close>. The second argument of \<open>submit_lead\<close> is
  what \<open>datetime.now()\<close> returns during the call.
\<close>

datatype SDRTools = SDRTools nat

definition update_lead_profile ::
  "SDRTools \<Rightarrow> pyval \<Rightarrow> pyval \<Rightarrow> pyval \<Rightarrow> pyval \<Rightarrow> pyval \<Rightarrow> pyval \<Rightarrow> module_state
     \<Rightarrow> (py_error + string) \<times> module_state" where
  "update_lead_profile self name company email use_case budget timeline s =
     (Inr ''Lead profile updated successfully.'',
      update (lead_state s)
        [(''name'', name), (''company'', company), (''email'', email),
         (''use_case'', use_case), (''budget'', budget), (''timeline'', timeline)] s)"

definition submit_lead ::
  "SDRTools \<Rightarrow> datetime \<Rightarrow> module_state \<Rightarrow> (py_error + string) \<times> module_state" where
  "submit_lead self now s =
     (case save_to_disk (lead_state s) now s of
        (Inl e, s') \<Rightarrow> (Inl e, s')
      | (Inr u, s') \<Rightarrow> (Inr ''Lead has been saved to the database.'', s'))"

text \<open>
  Loading the module runs \<open>lead_state = LeadManager()\<close> once, whatever the leads file is.
\<close>

definition module_init :: "leads_file \<Rightarrow> bool \<Rightarrow> module_state" where
  "module_init f w =
     (case LeadManager_init
             \<lparr>heap = (\<lambda>r. []), used = 0, lead_state = \<lparr>profile = 0\<rparr>,
              leads_file = f, writable = w\<rparr> of
        (m, s) \<Rightarrow> s\<lparr>lead_state := m\<rparr>)"

subsection \<open>Conversations\<close>

text \<open>
  A tool call of the language model, and a run of tool calls, each made through the
  \<open>SDRTools\<close> object that \<open>entrypoint\<close> created for its conversation.
\<close>

datatype tool_call =
    UpdateLeadProfile pyval pyval pyval pyval pyval pyval
  | SubmitLead datetime

fun call_tool :: "SDRTools \<Rightarrow> tool_call \<Rightarrow> module_state \<Rightarrow> (py_error + string) \<times> module_state" where
  "call_tool t (UpdateLeadProfile a b c d e f) s = update_lead_profile t a b c d e f s"
| "call_tool t (SubmitLead now) s = submit_lead t now s"

fun run_calls :: "(SDRTools \<times> tool_call) list \<Rightarrow> module_state \<Rightarrow> module_state" where
  "run_calls [] s = s"
| "run_calls ((t, c) # rest) s = run_calls rest (snd (call_tool t c s))"

text \<open>The current value of a key of the profile of \<open>lead_state\<close>, if the key is there.\<close>

definition field :: "string \<Rightarrow> module_state \<Rightarrow> pyval option" where
  "field k s = map_of (heap s (profile (lead_state s))) k"

subsection \<open>Sequences of updates\<close>

text \<open>The six arguments of one call of \<open>update_lead_profile\<close>, in the order of its signature.\<close>

type_synonym profile_args = "pyval \<times> pyval \<times> pyval \<times> pyval \<times> pyval \<times> pyval"

fun update_calls :: "SDRTools \<Rightarrow> profile_args list \<Rightarrow> module_state \<Rightarrow> module_state" where
  "update_calls t [] s = s"
| "update_calls t ((a, b, c, d, e, f) # rest) s =
     update_calls t rest (snd (update_lead_profile t a b c d e f s))"

text \<open>The value that a call supplies for a key; \<open>None\<close> for an omitted argument.\<close>

fun supplied :: "string \<Rightarrow> profile_args \<Rightarrow> pyval" where
  "supplied k (a, b, c, d, e, f) =
     (if k = ''name'' then a else if k = ''company'' then b else if k = ''email'' then c
      else if k = ''use_case'' then d else if k = ''budget'' then e
      else if k = ''timeline'' then f else None)"

text \<open>The last value other than \<open>None\<close> that a sequence of calls supplies for a key.\<close>

fun last_supplied :: "string \<Rightarrow> profile_args list \<Rightarrow> pyval" where
  "last_supplied k [] = None"
| "last_supplied k (c # cs) =
     (case last_supplied k cs of Some x \<Rightarrow> Some x | None \<Rightarrow> supplied k c)"

text \<open>
  The specification's reading: the last non-empty value supplied for a key, where both
  \<open>None\<close> and the empty string count as empty.
\<close>

fun last_nonempty :: "string \<Rightarrow> profile_args list \<Rightarrow> pyval" where
  "last_nonempty k [] = None"
| "last_nonempty k (c # cs) =
     (case last_nonempty k cs of
        Some x \<Rightarrow> Some x
      | None \<Rightarrow> (if truthy (supplied k c) then supplied k c else None))"

text \<open>What the loop of \<open>update\<close> does to the items of the dict it assigns to.\<close>

fun assign_items :: "kwargs \<Rightarrow> pydict \<Rightarrow> pydict" where
  "assign_items [] d = d"
| "assign_items ((k, v) # rest) d =
     assign_items rest (if v \<noteq> None then AList.update k v d else d)"

subsection \<open>The lead store\<close>

text \<open>
  The sequence of records that the leads file holds, when it holds one: no file is the
  empty store, a JSON array is its elements.
\<close>

fun records :: "leads_file \<Rightarrow> json list option" where
  "records Absent = Some []"
| "records (Stored (JArr xs)) = Some xs"
| "records _ = None"

text \<open>The names of the profile, in the order of \<open>__init__\<close>.\<close>

definition field_names :: "string list" where
  "field_names = [''name'', ''company'', ''email'', ''use_case'', ''budget'', ''timeline'']"

subsection \<open>Calls of \<open>save_to_disk\<close> that overlap\<close>

text \<open>
  \<open>save_to_disk\<close> takes no lock, so two calls that run in different processes or threads
  on the same file can interleave between the read and the write. A call \<open>i\<close> is cut
  where the source is: \<open>Load i\<close> is the read of the file and the append to the list in
  memory, \<open>Dump i\<close> the write of that list. The state is the file and, for every call,
  its local \<open>existing_leads\<close> once it is loaded; \<open>entry i\<close> is the record of call \<open>i\<close>.
  A step whose code raises leaves the state as it is. Writing is permitted.
\<close>

datatype step = Load nat | Dump nat

fun overlap_step ::
  "(nat \<Rightarrow> json) \<Rightarrow> step \<Rightarrow> leads_file \<times> (nat \<Rightarrow> json option)
     \<Rightarrow> leads_file \<times> (nat \<Rightarrow> json option)" where
  "overlap_step entry (Load i) (file, loc) =
     (case load_existing file of
        Inl e \<Rightarrow> (file, loc)
      | Inr existing_leads \<Rightarrow>
          (case list_append existing_leads (entry i) of
             Inl e \<Rightarrow> (file, loc)
           | Inr leads \<Rightarrow> (file, loc(i := Some leads))))"
| "overlap_step entry (Dump i) (file, loc) =
     (case loc i of None \<Rightarrow> (file, loc) | Some leads \<Rightarrow> (Stored leads, loc))"

fun overlap_run ::
  "(nat \<Rightarrow> json) \<Rightarrow> step list \<Rightarrow> leads_file \<times> (nat \<Rightarrow> json option)
     \<Rightarrow> leads_file \<times> (nat \<Rightarrow> json option)" where
  "overlap_run entry [] c = c"
| "overlap_run entry (st # rest) c = overlap_run entry rest (overlap_step entry st c)"

text \<open>The schedule in which the calls run one after the other.\<close>

fun one_by_one :: "nat list \<Rightarrow> step list" where
  "one_by_one [] = []"
| "one_by_one (i # rest) = Load i # Dump i # one_by_one rest"

text \<open>Two records to tell apart, and a time of day, for the examples below.\<close>

definition lead_of :: "nat \<Rightarrow> json" where
  "lead_of i = JObj [(''name'', JStr (if i = 0 then ''Ana'' else ''Ben''))]"

definition noon :: datetime where
  "noon = \<lparr>year = 2025, month = 11, day = 30, hour = 12, minute = 0, second = 5,
           microsecond = 0\<rparr>"

text \<open>
  The scenario of the specification, on a leads file \<open>f\<close> that can be written:
  \<open>update_lead_profile(name="Ana")\<close>, then \<open>update_lead_profile(use_case="chatbot")\<close>.
\<close>

definition scenario :: "leads_file \<Rightarrow> module_state" where
  "scenario f =
     update_calls (SDRTools 0)
       [(Some ''Ana'', None, None, None, None, None),
        (None, None, None, Some ''chatbot'', None, None)]
       (module_init f True)"

text \<open>
  What every state that the tools can reach has: the profile of \<open>lead_state\<close> is a dict
  that exists, and its keys are the six names.
\<close>

definition well_formed :: "module_state \<Rightarrow> bool" where
  "well_formed s = (profile (lead_state s) < used s \<and>
     map fst (heap s (profile (lead_state s))) = field_names)"

section \<open>Properties\<close>

subsection \<open>The loop of \<open>update\<close>\<close>

lemma update_heap:
  "update self kw s =
     s\<lparr>heap := (heap s)(profile self := assign_items kw (heap s (profile self)))\<rparr>"
  by (induction kw arbitrary: s) (auto simp: setitem_def)

lemma update_lead_state [simp]: "lead_state (update self kw s) = lead_state s"
  by (simp add: update_heap)

lemma map_of_assign_other:
  "k \<notin> fst ` set kw \<Longrightarrow> map_of (assign_items kw d) k = map_of d k"
  by (induction kw arbitrary: d) (auto simp: update_conv')

lemma map_of_assign_distinct:
  "distinct (map fst kw) \<Longrightarrow> (k, v) \<in> set kw \<Longrightarrow>
   map_of (assign_items kw d) k = (case v of None \<Rightarrow> map_of d k | Some x \<Rightarrow> Some (Some x))"
proof (induction kw arbitrary: d)
  case Nil
  then show ?case by simp
next
  case (Cons a kw)
  obtain k' v' where a: "a = (k', v')" by (cases a)
  show ?case
  proof (cases "k' = k")
    case True
    with Cons.prems a have "v' = v" and "k \<notin> fst ` set kw" by (auto simp: rev_image_eqI)
    then show ?thesis using a True
      by (simp add: map_of_assign_other update_conv' split: option.splits)
  next
    case False
    with Cons.prems a have "(k, v) \<in> set kw" and "distinct (map fst kw)" by auto
    then show ?thesis
      using a False Cons.IH [of "if v' \<noteq> None then AList.update k' v' d else d"]
      by (simp add: update_conv' split: option.splits)
  qed
qed

lemma assign_items_noop:
  "(\<And>k x. (k, Some x) \<in> set kw \<Longrightarrow> map_of d k = Some (Some x)) \<Longrightarrow> assign_items kw d = d"
proof (induction kw)
  case Nil
  then show ?case by simp
next
  case (Cons a kw)
  obtain k v where a: "a = (k, v)" by (cases a)
  have "assign_items kw d = d" using Cons by simp
  moreover have "v \<noteq> None \<Longrightarrow> AList.update k v d = d"
    using Cons.prems a by (auto intro: update_triv)
  ultimately show ?case using a by simp
qed

lemma assign_items_idem:
  assumes "distinct (map fst kw)"
  shows "assign_items kw (assign_items kw d) = assign_items kw d"
  by (rule assign_items_noop) (simp add: map_of_assign_distinct [OF assms])

lemma update_twice:
  assumes "distinct (map fst kw)"
  shows "update self kw (update self kw s) = update self kw s"
  unfolding update_heap [of _ kw] by (simp add: assign_items_idem [OF assms])

text \<open>
  C7. \<open>update_lead_profile\<close> is idempotent: for every state of the module and every
  choice of the six arguments, a second call with the same arguments returns the same
  acknowledgement and leaves the state that the first call produced.
\<close>

theorem update_lead_profile_idempotent:
  "update_lead_profile t a b c d e f (snd (update_lead_profile t a b c d e f s))
     = update_lead_profile t a b c d e f s"
proof -
  define kw where "kw = [(''name'', a), (''company'', b), (''email'', c),
         (''use_case'', d), (''budget'', e), (''timeline'', f)]"
  have "distinct (map fst kw)" by (simp add: kw_def)
  then have "update (lead_state s) kw (update (lead_state s) kw s) = update (lead_state s) kw s"
    by (rule update_twice)
  then show ?thesis
    unfolding update_lead_profile_def kw_def [symmetric] by simp
qed

subsection \<open>The module after loading\<close>

lemma module_init_simps:
  "heap (module_init f w) = (\<lambda>r. [])(0 := empty_profile)"
  "used (module_init f w) = 1"
  "lead_state (module_init f w) = \<lparr>profile = 0\<rparr>"
  "leads_file (module_init f w) = f"
  "writable (module_init f w) = w"
  by (simp_all add: module_init_def LeadManager_init_def new_dict_def)

subsection \<open>Which values \<open>update\<close> assigns\<close>

text \<open>
  C9. In \<open>LeadManager.update\<close>, for keyword arguments with distinct names, the value of a
  key after the call is the value before the call exactly when \<open>None\<close> was passed for it;
  every other value passed, the empty string included, is the value afterwards. The test
  that skips a key is \<open>is not None\<close>, not emptiness.
\<close>

theorem update_skips_exactly_None:
  assumes "distinct (map fst kw)" and "(k, v) \<in> set kw"
  shows "map_of (heap (update self kw s) (profile self)) k =
           (case v of None \<Rightarrow> map_of (heap s (profile self)) k | Some x \<Rightarrow> Some (Some x))"
  using assms by (simp add: update_heap map_of_assign_distinct)

text \<open>
  The hypotheses hold for \<open>update(name="", email=None)\<close> after \<open>update(name="Ana")\<close> on a
  new module: the empty string replaces \<open>"Ana"\<close>.
\<close>

theorem update_skips_exactly_None_witness:
  "distinct (map fst [(''name'', Some ''''), (''email'', None)]) \<and>
   (''name'', Some '''') \<in> set [(''name'', Some ''''), (''email'', None)] \<and>
   map_of (heap (update \<lparr>profile = 0\<rparr> [(''name'', Some ''''), (''email'', None)]
      (update \<lparr>profile = 0\<rparr> [(''name'', Some ''Ana'')] (module_init Absent True))) 0) ''name''
     = Some (Some '''')"
  using update_skips_exactly_None [of "[(''name'', Some ''''), (''email'', None)]" "''name''" "Some ''''"
      "\<lparr>profile = 0\<rparr>" "update \<lparr>profile = 0\<rparr> [(''name'', Some ''Ana'')] (module_init Absent True)"]
  by simp

lemma field_update_lead_profile:
  "field k (snd (update_lead_profile t a b c d e f s)) =
     (case supplied k (a, b, c, d, e, f) of None \<Rightarrow> field k s | Some x \<Rightarrow> Some (Some x))"
proof -
  define kw where "kw = [(''name'', a), (''company'', b), (''email'', c),
         (''use_case'', d), (''budget'', e), (''timeline'', f)]"
  have dist: "distinct (map fst kw)" by (simp add: kw_def)
  have upd: "snd (update_lead_profile t a b c d e f s) = update (lead_state s) kw s"
    by (simp add: update_lead_profile_def kw_def)
  have lhs: "field k (snd (update_lead_profile t a b c d e f s))
               = map_of (assign_items kw (heap s (profile (lead_state s)))) k"
    by (simp add: upd field_def update_heap)
  show ?thesis
  proof (cases "k \<in> fst ` set kw")
    case False
    then have "supplied k (a, b, c, d, e, f) = None" by (auto simp: kw_def)
    then show ?thesis
      unfolding lhs by (simp add: map_of_assign_other [OF False] field_def)
  next
    case True
    then have "(k, supplied k (a, b, c, d, e, f)) \<in> set kw" by (auto simp: kw_def)
    from map_of_assign_distinct [OF dist this, of "heap s (profile (lead_state s))"]
    have "field k (snd (update_lead_profile t a b c d e f s)) =
            (case supplied k (a, b, c, d, e, f) of
               None \<Rightarrow> map_of (heap s (profile (lead_state s))) k
             | Some x \<Rightarrow> Some (Some x))"
      unfolding lhs .
    then show ?thesis unfolding field_def [of k s] .
  qed
qed

text \<open>
  C2, as the code has it. After any sequence of \<open>update_lead_profile\<close> calls, the value
  of a key of the profile is the last value other than \<open>None\<close> supplied for it, and its
  value before the sequence when no call supplied one: \<open>None\<close> and omitted arguments
  never overwrite, an empty string does.
\<close>

theorem field_after_update_calls:
  "field k (update_calls t calls s) =
     (case last_supplied k calls of None \<Rightarrow> field k s | Some x \<Rightarrow> Some (Some x))"
proof (induction calls arbitrary: s)
  case Nil
  then show ?case by simp
next
  case (Cons c calls)
  obtain a b c' d e f where c: "c = (a, b, c', d, e, f)" by (cases c)
  show ?case
    unfolding c update_calls.simps Cons.IH field_update_lead_profile last_supplied.simps
    by (simp split: option.splits)
qed

text \<open>A name supplied once stays when a later call omits it.\<close>

theorem field_after_update_calls_witness:
  "last_supplied ''name'' [(Some ''Ana'', None, None, None, None, None),
        (None, None, None, Some ''chatbot'', None, None)] = Some ''Ana'' \<and>
   field ''name'' (update_calls (SDRTools 0) [(Some ''Ana'', None, None, None, None, None),
        (None, None, None, Some ''chatbot'', None, None)] (module_init Absent True))
     = Some (Some ''Ana'')"
  using field_after_update_calls [of "''name''" "SDRTools 0"
      "[(Some ''Ana'', None, None, None, None, None), (None, None, None, Some ''chatbot'', None, None)]"
      "module_init Absent True"]
  by simp

text \<open>
  C2 as stated fails: after \<open>update_lead_profile(name="Ana")\<close> and then
  \<open>update_lead_profile(name="")\<close> the name is the empty string, while the last non-empty
  value supplied for it is \<open>"Ana"\<close>.
\<close>

theorem empty_string_overwrites:
  "field ''name'' (update_calls (SDRTools 0)
       [(Some ''Ana'', None, None, None, None, None), (Some '''', None, None, None, None, None)]
       (module_init Absent True)) = Some (Some '''') \<and>
   last_nonempty ''name''
       [(Some ''Ana'', None, None, None, None, None), (Some '''', None, None, None, None, None)]
     = Some ''Ana''"
  by (simp add: field_update_lead_profile)

lemma scenario_simps:
  "heap (scenario f) 0 =
     [(''name'', Some ''Ana''), (''company'', None), (''email'', None),
      (''use_case'', Some ''chatbot''), (''budget'', None), (''timeline'', None)]"
  "used (scenario f) = 1"
  "lead_state (scenario f) = \<lparr>profile = 0\<rparr>"
  "leads_file (scenario f) = f"
  "writable (scenario f) = True"
  by (simp_all add: scenario_def update_lead_profile_def module_init_simps setitem_def
      empty_profile_def)

subsection \<open>Completeness\<close>

lemma truthy_iff: "truthy a = (a \<notin> {None, Some ''''})"
  by (cases a) auto

lemma is_complete_reads_only: "snd (is_complete self s) = s"
  by (simp add: is_complete_def split: sum.splits)

text \<open>
  C6. \<open>is_complete()\<close> returns \<open>True\<close> if and only if the current values of \<open>name\<close> and
  \<open>use_case\<close> are both non-empty (neither \<open>None\<close> nor the empty string), and it returns
  the state it was called in: it reads and changes nothing. The two keys are in the
  profile of every state the tools reach (\<open>well_formed\<close>, below).
\<close>

theorem is_complete_iff:
  assumes "map_of (heap s (profile self)) ''name'' = Some a"
    and "map_of (heap s (profile self)) ''use_case'' = Some b"
  shows "is_complete self s = (Inr (a \<notin> {None, Some ''''} \<and> b \<notin> {None, Some ''''}), s)"
  using assms by (simp add: is_complete_def getitem_def truthy_iff)

text \<open>In the scenario both values are set and \<open>is_complete()\<close> is \<open>True\<close>.\<close>

theorem is_complete_iff_witness:
  "map_of (heap (scenario Absent) (profile \<lparr>profile = 0\<rparr>)) ''name'' = Some (Some ''Ana'') \<and>
   map_of (heap (scenario Absent) (profile \<lparr>profile = 0\<rparr>)) ''use_case'' = Some (Some ''chatbot'') \<and>
   is_complete \<lparr>profile = 0\<rparr> (scenario Absent) = (Inr True, scenario Absent)"
  using is_complete_iff [of "scenario Absent" "\<lparr>profile = 0\<rparr>" "Some ''Ana''" "Some ''chatbot''"]
  by (simp add: scenario_simps)

subsection \<open>The effect of \<open>save_to_disk\<close>\<close>

lemma save_to_disk_heap:
  "heap (snd (save_to_disk self now s)) =
     (heap s)(used s := AList.update ''timestamp'' (Some (isoformat now)) (heap s (profile self)))"
  by (simp add: save_to_disk_def dict_copy_def new_dict_def setitem_def dump_leads_def Let_def
      split: sum.splits)

lemma save_to_disk_lead_state:
  "lead_state (snd (save_to_disk self now s)) = lead_state s"
  by (simp add: save_to_disk_def dict_copy_def new_dict_def setitem_def dump_leads_def Let_def
      split: sum.splits)

lemma save_to_disk_used:
  "used (snd (save_to_disk self now s)) = Suc (used s)"
  by (simp add: save_to_disk_def dict_copy_def new_dict_def setitem_def dump_leads_def Let_def
      split: sum.splits)

lemma snd_submit_lead: "snd (submit_lead t now s) = snd (save_to_disk (lead_state s) now s)"
  by (simp add: submit_lead_def split: prod.splits sum.splits)

lemma save_to_disk_result:
  assumes "load_existing (leads_file s) = Inr (JArr xs)" and "writable s"
  shows "fst (save_to_disk self now s) = Inr ()"
    and "leads_file (snd (save_to_disk self now s)) =
           Stored (JArr (xs @ [json_of_dict
             (AList.update ''timestamp'' (Some (isoformat now)) (heap s (profile self)))]))"
  using assms
  by (simp_all add: save_to_disk_def dict_copy_def new_dict_def setitem_def dump_leads_def Let_def)

lemma fst_submit_lead:
  "fst (save_to_disk (lead_state s) now s) = Inr u \<Longrightarrow>
   fst (submit_lead t now s) = Inr ''Lead has been saved to the database.''"
  by (cases "save_to_disk (lead_state s) now s") (auto simp: submit_lead_def split: sum.splits)

lemma records_load: "records f = Some xs \<Longrightarrow> load_existing f = Inr (JArr xs)"
  by (induction f rule: records.induct) auto

lemma isoformat_noon: "isoformat noon = ''2025-11-30T12:00:05''"
  by code_simp

lemma valid_noon: "valid_datetime noon"
  by (simp add: valid_datetime_def noon_def)

text \<open>
  C10. \<open>submit_lead\<close> never changes the profile in memory: when the profile of
  \<open>lead_state\<close> is a dict that exists, then after the call, whether it returned or raised,
  \<open>lead_state\<close> is the same object and its profile has the same items in the same order.
  The time stamp goes to the copy only.
\<close>

theorem submit_lead_keeps_profile:
  assumes "profile (lead_state s) < used s"
  shows "lead_state (snd (submit_lead t now s)) = lead_state s \<and>
         heap (snd (submit_lead t now s)) (profile (lead_state s)) = heap s (profile (lead_state s))"
  using assms by (simp add: snd_submit_lead save_to_disk_heap save_to_disk_lead_state)

text \<open>After a submission in the scenario the profile has its six items and no time stamp.\<close>

theorem submit_lead_keeps_profile_witness:
  "profile (lead_state (scenario Absent)) < used (scenario Absent) \<and>
   heap (snd (submit_lead (SDRTools 0) noon (scenario Absent))) 0 =
     [(''name'', Some ''Ana''), (''company'', None), (''email'', None),
      (''use_case'', Some ''chatbot''), (''budget'', None), (''timeline'', None)]"
  using submit_lead_keeps_profile [of "scenario Absent" "SDRTools 0" noon]
  by (simp add: scenario_simps)

text \<open>
  C5. A call of \<open>submit_lead\<close> on a store that holds a sequence of records (no file yet, or
  a JSON array) and can be written returns its acknowledgement, and the store afterwards
  holds the same records in the same order followed by exactly one new record.
\<close>

theorem submit_lead_appends_one:
  assumes "records (leads_file s) = Some xs" and "writable s"
  shows "fst (submit_lead t now s) = Inr ''Lead has been saved to the database.'' \<and>
         records (leads_file (snd (submit_lead t now s))) =
           Some (xs @ [json_of_dict
             (AList.update ''timestamp'' (Some (isoformat now)) (heap s (profile (lead_state s))))])"
  using save_to_disk_result [OF records_load [OF assms(1)] assms(2)]
  by (simp add: snd_submit_lead fst_submit_lead)

text \<open>A store of one record holds two after a submission, the old one first.\<close>

theorem submit_lead_appends_one_witness:
  "records (leads_file (scenario (Stored (JArr [lead_of 0])))) = Some [lead_of 0] \<and>
   writable (scenario (Stored (JArr [lead_of 0]))) \<and>
   (\<exists>e. records (leads_file (snd (submit_lead (SDRTools 0) noon
           (scenario (Stored (JArr [lead_of 0])))))) = Some [lead_of 0, e])"
  using submit_lead_appends_one [of "scenario (Stored (JArr [lead_of 0]))" "[lead_of 0]" "SDRTools 0" noon]
  by (simp add: scenario_simps)

text \<open>
  C4, as the code has it. When the leads file is missing, or is text that is not JSON,
  and the file can be written, \<open>submit_lead\<close> returns its acknowledgement and the store
  afterwards holds the new record alone: the prior content counts as empty.
\<close>

theorem submit_lead_recovers:
  assumes "leads_file s = Absent \<or> leads_file s = Malformed" and "writable s"
  shows "fst (submit_lead t now s) = Inr ''Lead has been saved to the database.'' \<and>
         leads_file (snd (submit_lead t now s)) =
           Stored (JArr [json_of_dict
             (AList.update ''timestamp'' (Some (isoformat now)) (heap s (profile (lead_state s))))])"
proof -
  from assms(1) have "load_existing (leads_file s) = Inr (JArr [])" by auto
  from save_to_disk_result [OF this assms(2)] show ?thesis
    by (simp add: snd_submit_lead fst_submit_lead)
qed

text \<open>The hypotheses hold in the scenario on a file that is not JSON.\<close>

theorem submit_lead_recovers_witness:
  "(leads_file (scenario Malformed) = Absent \<or> leads_file (scenario Malformed) = Malformed) \<and>
   writable (scenario Malformed) \<and>
   fst (submit_lead (SDRTools 0) noon (scenario Malformed)) =
     Inr ''Lead has been saved to the database.'' \<and>
   (\<exists>e. leads_file (snd (submit_lead (SDRTools 0) noon (scenario Malformed))) = Stored (JArr [e]))"
  using submit_lead_recovers [of "scenario Malformed" "SDRTools 0" noon]
  by (simp add: scenario_simps)

text \<open>
  C4 as stated fails: on a file that \<open>open\<close> refuses, and on a file whose bytes do not
  decode, \<open>submit_lead\<close> raises (\<open>OSError\<close>, \<open>UnicodeDecodeError\<close>), and the file is left
  as it was. Only \<open>JSONDecodeError\<close> is caught.
\<close>

theorem unreadable_store_raises:
  "fst (submit_lead (SDRTools 0) noon (module_init Unopenable True)) = Inl OSError \<and>
   leads_file (snd (submit_lead (SDRTools 0) noon (module_init Unopenable True))) = Unopenable \<and>
   fst (submit_lead (SDRTools 0) noon (module_init Undecodable True)) = Inl UnicodeDecodeError \<and>
   leads_file (snd (submit_lead (SDRTools 0) noon (module_init Undecodable True))) = Undecodable"
  by (simp add: submit_lead_def save_to_disk_def dict_copy_def new_dict_def setitem_def
      module_init_simps Let_def)

subsection \<open>The time stamp\<close>

lemma is_digit_digit_char: "d < 10 \<Longrightarrow> is_digit (digit_char d)"
proof -
  assume "d < 10"
  then have "d \<in> {0, 1, 2, 3, 4, 5, 6, 7, 8, 9}" by auto
  then show ?thesis by (auto simp: digit_char_def)
qed

lemma matches_append:
  "matches p u \<Longrightarrow> matches q v \<Longrightarrow> matches (p @ q) (u @ v)"
  by (induction p u rule: matches.induct) auto

lemma matches_decimal: "matches (replicate (length (decimal n)) Digit) (decimal n)"
proof (induction n rule: decimal.induct)
  case (1 n)
  show ?case
  proof (cases "n < 10")
    case True
    then show ?thesis by (simp add: decimal.simps [of n] is_digit_digit_char del: is_digit.simps)
  next
    case False
    have "matches [Digit] [digit_char (n mod 10)]"
      by (simp add: is_digit_digit_char del: is_digit.simps)
    from matches_append [OF 1 [OF False] this] show ?thesis
      using False by (simp add: decimal.simps [of n] replicate_append_same)
  qed
qed

lemma length_decimal: "0 < w \<Longrightarrow> n < 10 ^ w \<Longrightarrow> length (decimal n) \<le> w"
proof (induction n arbitrary: w rule: decimal.induct)
  case (1 n)
  show ?case
  proof (cases "n < 10")
    case True
    then show ?thesis using "1.prems" by (simp add: decimal.simps [of n])
  next
    case False
    with "1.prems" obtain w' where w: "w = Suc w'" by (cases w) auto
    with False "1.prems" have "0 < w'" by (cases w') auto
    moreover from w "1.prems" have "n div 10 < 10 ^ w'" by (simp add: less_mult_imp_div_less mult.commute)
    ultimately have "length (decimal (n div 10)) \<le> w'" using "1.IH" [OF False] by simp
    then show ?thesis using False w by (simp add: decimal.simps [of n])
  qed
qed

lemma matches_zeros: "matches (replicate m Digit) (replicate m (CHR ''0''))"
  by (induction m) auto

lemma matches_zero_pad:
  assumes "0 < w" and "n < 10 ^ w"
  shows "matches (replicate w Digit) (zero_pad w n)"
proof -
  have le: "length (decimal n) \<le> w" using assms by (rule length_decimal)
  have "matches (replicate (w - length (decimal n)) Digit @ replicate (length (decimal n)) Digit)
          (replicate (w - length (decimal n)) (CHR ''0'') @ decimal n)"
    by (rule matches_append [OF matches_zeros matches_decimal])
  moreover have "replicate (w - length (decimal n)) Digit @ replicate (length (decimal n)) Digit
      = replicate w Digit"
    using le by (simp add: replicate_add [symmetric])
  ultimately show ?thesis by (simp add: zero_pad_def)
qed

lemma matches_lit: "matches [Lit x] [x]"
  by simp

lemma isoformat_iso8601:
  assumes "valid_datetime d"
  shows "iso8601 (isoformat d)"
proof -
  have y: "matches (replicate 4 Digit) (zero_pad 4 (year d))"
    and mo: "matches (replicate 2 Digit) (zero_pad 2 (month d))"
    and da: "matches (replicate 2 Digit) (zero_pad 2 (day d))"
    and h: "matches (replicate 2 Digit) (zero_pad 2 (hour d))"
    and mi: "matches (replicate 2 Digit) (zero_pad 2 (minute d))"
    and se: "matches (replicate 2 Digit) (zero_pad 2 (second d))"
    and us: "matches (replicate 6 Digit) (zero_pad 6 (microsecond d))"
    using assms by (auto simp: valid_datetime_def intro!: matches_zero_pad)
  have secs: "matches seconds_shape
     (zero_pad 4 (year d) @ ''-'' @ zero_pad 2 (month d) @ ''-'' @ zero_pad 2 (day d) @ ''T'' @
      zero_pad 2 (hour d) @ '':'' @ zero_pad 2 (minute d) @ '':'' @ zero_pad 2 (second d))"
    using matches_append [OF y matches_append [OF matches_lit [of "CHR ''-''"]
          matches_append [OF mo matches_append [OF matches_lit [of "CHR ''-''"]
          matches_append [OF da matches_append [OF matches_lit [of "CHR ''T''"]
          matches_append [OF h matches_append [OF matches_lit [of "CHR '':''"]
          matches_append [OF mi matches_append [OF matches_lit [of "CHR '':''"] se]]]]]]]]]]
    by (simp add: seconds_shape_def numeral_eq_Suc)
  have frac: "matches fraction_shape (''.'' @ zero_pad 6 (microsecond d))"
    using matches_append [OF matches_lit [of "CHR ''.''"] us]
    by (simp add: fraction_shape_def numeral_eq_Suc)
  show ?thesis
  proof (cases "microsecond d = 0")
    case True
    then show ?thesis using secs by (simp add: iso8601_def isoformat_def)
  next
    case False
    from matches_append [OF secs frac] show ?thesis
      using False by (simp add: iso8601_def isoformat_def)
  qed
qed

subsection \<open>The record that is stored\<close>

lemma update_new_key: "k \<notin> fst ` set d \<Longrightarrow> AList.update k v d = d @ [(k, v)]"
  by (induction d) auto

lemma json_of_snapshot:
  assumes "map fst d = field_names"
  shows "json_of_dict (AList.update ''timestamp'' (Some ts) d) =
           JObj (map (\<lambda>(k, v). (k, json_of_value v)) d @ [(''timestamp'', JStr ts)])"
proof -
  have "''timestamp'' \<notin> set (map fst d)" unfolding assms by (simp add: field_names_def)
  then have "AList.update ''timestamp'' (Some ts) d = d @ [(''timestamp'', Some ts)]"
    by (simp add: update_new_key)
  then show ?thesis by (simp add: json_of_dict_def)
qed

text \<open>
  C8. When the profile has its six keys, the store holds a sequence of records and can be
  written, the record that \<open>submit_lead\<close> appends is the six items of the profile with
  their current values, in order, followed by one more item, \<open>timestamp\<close>, whose value is
  the time of the call in ISO-8601 format; and the file is written as the whole sequence,
  the prior records and the new one.
\<close>

theorem submit_lead_record:
  assumes "map fst (heap s (profile (lead_state s))) = field_names"
    and "load_existing (leads_file s) = Inr (JArr xs)"
    and "writable s"
    and "valid_datetime now"
  shows "fst (submit_lead t now s) = Inr ''Lead has been saved to the database.'' \<and>
         leads_file (snd (submit_lead t now s)) =
           Stored (JArr (xs @
             [JObj (map (\<lambda>(k, v). (k, json_of_value v)) (heap s (profile (lead_state s))) @
                    [(''timestamp'', JStr (isoformat now))])])) \<and>
         iso8601 (isoformat now)"
  using save_to_disk_result [OF assms(2,3)] isoformat_iso8601 [OF assms(4)]
  by (simp add: snd_submit_lead fst_submit_lead json_of_snapshot [OF assms(1)])

text \<open>The scenario of the specification: the store holds one record, for Ana.\<close>

theorem submit_lead_record_witness:
  "map fst (heap (scenario Absent) (profile (lead_state (scenario Absent)))) = field_names \<and>
   load_existing (leads_file (scenario Absent)) = Inr (JArr []) \<and>
   writable (scenario Absent) \<and> valid_datetime noon \<and>
   leads_file (snd (submit_lead (SDRTools 0) noon (scenario Absent))) =
     Stored (JArr [JObj [(''name'', JStr ''Ana''), (''company'', JNull), (''email'', JNull),
       (''use_case'', JStr ''chatbot''), (''budget'', JNull), (''timeline'', JNull),
       (''timestamp'', JStr ''2025-11-30T12:00:05'')]])"
  using submit_lead_record [of "scenario Absent" "[]" noon "SDRTools 0"]
  by (simp add: scenario_simps field_names_def valid_noon isoformat_noon)

subsection \<open>Conversations in one module\<close>

lemma assign_items_keys:
  "fst ` set kw \<subseteq> set (map fst d) \<Longrightarrow> map fst (assign_items kw d) = map fst d"
proof (induction kw arbitrary: d)
  case Nil
  then show ?case by simp
next
  case (Cons a kw)
  obtain k v where a: "a = (k, v)" by (cases a)
  from Cons.prems a have k: "k \<in> set (map fst d)" and rest: "fst ` set kw \<subseteq> set (map fst d)"
    by auto
  from k have keys: "map fst (AList.update k v d) = map fst d" by (simp add: update_keys)
  show ?case
  proof (cases v)
    case None
    then show ?thesis using a Cons.IH [OF rest] by simp
  next
    case (Some x)
    from rest keys have "fst ` set kw \<subseteq> set (map fst (AList.update k v d))" by simp
    from Cons.IH [OF this] show ?thesis using a Some keys by simp
  qed
qed

lemma well_formed_module_init: "well_formed (module_init f w)"
  by (simp add: well_formed_def module_init_simps empty_profile_def field_names_def)

lemma well_formed_update_lead_profile:
  assumes "well_formed s"
  shows "well_formed (snd (update_lead_profile t a b c d e f s))"
proof -
  define kw where "kw = [(''name'', a), (''company'', b), (''email'', c),
         (''use_case'', d), (''budget'', e), (''timeline'', f)]"
  have "fst ` set kw \<subseteq> set (map fst (heap s (profile (lead_state s))))"
    using assms by (simp add: well_formed_def kw_def field_names_def)
  from assign_items_keys [OF this]
  have "map fst (assign_items kw (heap s (profile (lead_state s)))) = field_names"
    using assms by (simp add: well_formed_def)
  then show ?thesis
    using assms unfolding update_lead_profile_def kw_def [symmetric]
    by (simp add: well_formed_def update_heap)
qed

lemma well_formed_submit_lead:
  assumes "well_formed s"
  shows "well_formed (snd (submit_lead t now s))"
  using assms
  by (simp add: well_formed_def snd_submit_lead save_to_disk_heap save_to_disk_lead_state
      save_to_disk_used)

lemma well_formed_run_calls: "well_formed s \<Longrightarrow> well_formed (run_calls cs s)"
proof (induction cs arbitrary: s)
  case Nil
  then show ?case by simp
next
  case (Cons tc cs)
  obtain t c where tc: "tc = (t, c)" by (cases tc)
  have "well_formed (snd (call_tool t c s))"
    using Cons.prems by (cases c) (simp_all add: well_formed_update_lead_profile well_formed_submit_lead)
  then show ?case using tc Cons.IH by simp
qed

lemma call_tool_any_session: "call_tool t c s = call_tool t' c s"
  by (cases c) (simp_all add: update_lead_profile_def submit_lead_def)

text \<open>
  C1 fails in the code: \<open>lead_state\<close> is one object of the module, and an \<open>SDRTools\<close>
  object holds no profile of its own. When a conversation with tools \<open>SDRTools 1\<close> supplies
  a name and a use case and another conversation with tools \<open>SDRTools 2\<close> submits, the
  record stored is the first conversation's data; and a name supplied by the second
  conversation replaces the name supplied by the first.
\<close>

theorem sessions_share_lead_state:
  "leads_file (run_calls
      [(SDRTools 1, UpdateLeadProfile (Some ''Ana'') None None (Some ''chatbot'') None None),
       (SDRTools 2, SubmitLead noon)] (module_init Absent True)) =
     Stored (JArr [JObj [(''name'', JStr ''Ana''), (''company'', JNull), (''email'', JNull),
       (''use_case'', JStr ''chatbot''), (''budget'', JNull), (''timeline'', JNull),
       (''timestamp'', JStr ''2025-11-30T12:00:05'')]]) \<and>
   field ''name'' (run_calls
      [(SDRTools 1, UpdateLeadProfile (Some ''Ana'') None None None None None),
       (SDRTools 2, UpdateLeadProfile (Some ''Ben'') None None None None None)]
      (module_init Absent True)) = Some (Some ''Ben'')"
  by (simp add: field_def snd_submit_lead save_to_disk_result
      update_lead_profile_def module_init_simps setitem_def empty_profile_def json_of_dict_def
      isoformat_noon)

subsection \<open>Submissions that overlap\<close>

lemma save_to_disk_as_steps:
  assumes "writable s"
  shows "leads_file (snd (save_to_disk self now s)) =
     fst (overlap_run
       (\<lambda>i. json_of_dict (AList.update ''timestamp'' (Some (isoformat now)) (heap s (profile self))))
       [Load 0, Dump 0] (leads_file s, Map.empty))"
  using assms
  by (simp add: save_to_disk_def dict_copy_def new_dict_def setitem_def dump_leads_def Let_def
      split: sum.splits)

text \<open>
  C3, as the code has it. When the calls run one after the other, each reading the file
  only after the call before it has written, nothing is lost: from a store that reads as
  a sequence of records, the store afterwards reads as that sequence followed by the
  records of all the calls, in the order of the calls.
\<close>

theorem one_by_one_keeps_all:
  assumes "load_existing f = Inr (JArr xs)"
  shows "load_existing (fst (overlap_run entry (one_by_one calls) (f, loc)))
           = Inr (JArr (xs @ map entry calls))"
  using assms
proof (induction calls arbitrary: f loc xs)
  case Nil
  then show ?case by simp
next
  case (Cons i calls)
  have "load_existing (Stored (JArr (xs @ [entry i]))) = Inr (JArr (xs @ [entry i]))" by simp
  from Cons.IH [OF this] show ?case using Cons.prems by simp
qed

text \<open>Two calls in turn on a new store leave both records.\<close>

theorem one_by_one_keeps_all_witness:
  "load_existing Absent = Inr (JArr []) \<and>
   load_existing (fst (overlap_run lead_of (one_by_one [0, 1]) (Absent, Map.empty)))
     = Inr (JArr [lead_of 0, lead_of 1])"
  using one_by_one_keeps_all [of Absent "[]" lead_of "[0, 1]" Map.empty]
  by simp

text \<open>
  C3 as stated fails: nothing serializes the read and the write. When two calls both
  read the missing file before either writes, the second write replaces the first, and
  the store holds the record of call 1 only.
\<close>

theorem overlap_loses_record:
  "records (fst (overlap_run lead_of [Load 0, Load 1, Dump 0, Dump 1] (Absent, Map.empty)))
     = Some [lead_of 1] \<and> lead_of 0 \<notin> set [lead_of 1]"
  by (simp add: lead_of_def)

end
